theory Spec2Isabelle
  imports Complex_Main
begin

section \<open>The retry helper of the HTTP-requests notebook\<close>

text \<open>
  The notebook "Implementing Retries and Timeouts" defines
  \<^verbatim>\<open>
  def get_with_backoff(url, max_retries=3):
      delay=1
      for attempt in range(1, max_retries + 1):
          try:
              res = requests.get(url, timeout=10)
              res.raise_for_status()
              return res
          except requests.exceptions.HTTPError as err:
              if err.response.status_code < 500:
                  raise RuntimeError(f"Client error! Please review request.")
              else:
                  jitter = random.uniform(-0.1 * delay, 0.1 * delay)
                  wait = min(delay * 2, 30) + jitter
                  time.sleep(wait)
                  delay = min(delay * 2, 30)
      raise RuntimeError(f"All retries to query {url} failed!")
  \<close>
  (the \<open>print\<close> lines, which only write to standard output, are left out).
  The model below passes the outside world explicitly: the network, the random source and
  the record of what the function did.
\<close>

subsection \<open>Data\<close>

text \<open>
  A response of the \<open>requests\<close> library, as far as the function looks at it.
\<close>

record response =
  status_code :: int
  content :: string

text \<open>
  The exceptions of \<open>requests.exceptions\<close> that are not \<open>HTTPError\<close>: the function has no
  handler for them.
\<close>

datatype request_exception = ConnectTimeout | ReadTimeout | ConnectionError

text \<open>
  What the two statements of the \<open>try\<close> block, \<open>requests.get\<close> and \<open>raise_for_status\<close>, do on
  one attempt: they leave a response in \<open>res\<close>, they raise \<open>HTTPError\<close> carrying the response
  (\<open>err.response\<close>), or they raise another exception.
\<close>

datatype outcome =
    Returned response
  | Raised_HTTPError response
  | Raised request_exception

text \<open>What \<open>get_with_backoff\<close> raises: its own \<open>RuntimeError\<close>s, or an exception it let through.\<close>

datatype error = RuntimeError string | Uncaught request_exception

text \<open>
  The effects of the function, each with the values of the local variables \<open>attempt\<close> and
  \<open>delay\<close> at that moment: the call \<open>requests.get(url, timeout=10)\<close>, with the url and the
  timeout, and the call \<open>time.sleep(wait)\<close>, with \<open>wait\<close>.
\<close>

datatype event =
    Get (at_attempt: int) (at_delay: int) string int
  | Sleep (at_attempt: int) (at_delay: int) real

text \<open>
  The world: how many requests and how many random draws were made so far, and the effects
  in the order they happened.
\<close>

record world =
  calls :: nat
  draws :: nat
  log :: "event list"

definition start :: world where
  "start = \<lparr>calls = 0, draws = 0, log = []\<rparr>"

text \<open>
  The network answers the \<open>k\<close>-th request (counted from 0) with \<open>ex k\<close>; the random source
  gives \<open>rng k\<close>, the value of \<open>random.random()\<close>, on the \<open>k\<close>-th draw.
\<close>

type_synonym executor = "nat \<Rightarrow> outcome"
type_synonym random_source = "nat \<Rightarrow> real"

subsection \<open>Operations\<close>

text \<open>
  \<open>random.uniform(a, b)\<close> is \<open>a + (b - a) * random()\<close> in the standard library. Floating
  point numbers are taken as exact reals: rounding is not modelled.
\<close>

definition uniform :: "random_source \<Rightarrow> real \<Rightarrow> real \<Rightarrow> world \<Rightarrow> real \<times> world" where
  "uniform rng a b w = (a + (b - a) * rng (draws w), w\<lparr>draws := Suc (draws w)\<rparr>)"

definition try_get :: "executor \<Rightarrow> int \<Rightarrow> int \<Rightarrow> string \<Rightarrow> world \<Rightarrow> outcome \<times> world" where
  "try_get ex attempt delay url w =
     (ex (calls w),
      w\<lparr>calls := Suc (calls w), log := log w @ [Get attempt delay url 10]\<rparr>)"

text \<open>
  \<open>time.sleep\<close> is recorded with its argument. The library refuses a negative argument;
  the function never passes one (see the bounds on the waits below), so that branch is
  not part of the model.
\<close>

definition sleep :: "int \<Rightarrow> int \<Rightarrow> real \<Rightarrow> world \<Rightarrow> world" where
  "sleep attempt delay wait w = w\<lparr>log := log w @ [Sleep attempt delay wait]\<rparr>"

text \<open>How one pass through the loop body ends.\<close>

datatype flow = Next_iteration int | Return response | Raise error

definition body ::
  "string \<Rightarrow> executor \<Rightarrow> random_source \<Rightarrow> int \<Rightarrow> int \<Rightarrow> world \<Rightarrow> flow \<times> world" where
  "body url ex rng attempt delay w =
     (case try_get ex attempt delay url w of
        (Returned res, w1) \<Rightarrow> (Return res, w1)
      | (Raised e, w1) \<Rightarrow> (Raise (Uncaught e), w1)
      | (Raised_HTTPError res, w1) \<Rightarrow>
          if status_code res < 500
          then (Raise (RuntimeError ''Client error! Please review request.''), w1)
          else
            (case uniform rng (- 0.1 * of_int delay) (0.1 * of_int delay) w1 of
               (jitter, w2) \<Rightarrow>
                 let wait = of_int (min (delay * 2) 30) + jitter;
                     w3 = sleep attempt delay wait w2
                 in (Next_iteration (min (delay * 2) 30), w3)))"

text \<open>
  The \<open>for\<close> loop over \<open>range(1, max_retries + 1)\<close>: \<open>None\<close> when the range is used up
  without a \<open>return\<close> or a \<open>raise\<close>.
\<close>

fun for_loop ::
  "string \<Rightarrow> executor \<Rightarrow> random_source \<Rightarrow> int list \<Rightarrow> int \<Rightarrow> world
     \<Rightarrow> (error + response) option \<times> world" where
  "for_loop url ex rng [] delay w = (None, w)"
| "for_loop url ex rng (attempt # rest) delay w =
     (case body url ex rng attempt delay w of
        (Next_iteration delay', w') \<Rightarrow> for_loop url ex rng rest delay' w'
      | (Return res, w') \<Rightarrow> (Some (Inr res), w')
      | (Raise e, w') \<Rightarrow> (Some (Inl e), w'))"

definition get_with_backoff ::
  "string \<Rightarrow> int \<Rightarrow> executor \<Rightarrow> random_source \<Rightarrow> world \<Rightarrow> (error + response) \<times> world" where
  "get_with_backoff url max_retries ex rng w =
     (case for_loop url ex rng [1..max_retries] 1 w of
        (Some r, w') \<Rightarrow> (r, w')
      | (None, w') \<Rightarrow>
          (Inl (RuntimeError (''All retries to query '' @ url @ '' failed!'')), w'))"

subsection \<open>The plain retry loop of the same notebook\<close>

text \<open>
  The cell before \<open>get_with_backoff\<close> retries with a fixed delay:
  \<^verbatim>\<open>
  for attempt in range(1, max_retries + 1):
      try:
          res = requests.get(flaky_url, timeout=10)
          res.raise_for_status()
          break
      except requests.exceptions.HTTPError as err:
          if err.response.status_code < 500:
              break
          else:
              print(...)
      if attempt < max_retries:
          time.sleep(delay)
  else:
      print(f"All {max_retries} attempts failed!")
  \<close>
  with \<open>max_retries = 3\<close> and \<open>delay = 2\<close> set before the loop; they are parameters here.
\<close>

datatype simple_flow = Carry_on | Break | Propagate request_exception

datatype simple_end = Broke | All_failed | Propagated request_exception

definition simple_body ::
  "string \<Rightarrow> executor \<Rightarrow> int \<Rightarrow> int \<Rightarrow> int \<Rightarrow> world \<Rightarrow> simple_flow \<times> world" where
  "simple_body url ex max_retries delay attempt w =
     (case try_get ex attempt delay url w of
        (Returned res, w1) \<Rightarrow> (Break, w1)
      | (Raised e, w1) \<Rightarrow> (Propagate e, w1)
      | (Raised_HTTPError res, w1) \<Rightarrow>
          if status_code res < 500 then (Break, w1)
          else (Carry_on,
                if attempt < max_retries then sleep attempt delay (of_int delay) w1 else w1))"

fun simple_for_loop ::
  "string \<Rightarrow> executor \<Rightarrow> int \<Rightarrow> int \<Rightarrow> int list \<Rightarrow> world \<Rightarrow> simple_end \<times> world" where
  "simple_for_loop url ex max_retries delay [] w = (All_failed, w)"
| "simple_for_loop url ex max_retries delay (attempt # rest) w =
     (case simple_body url ex max_retries delay attempt w of
        (Carry_on, w') \<Rightarrow> simple_for_loop url ex max_retries delay rest w'
      | (Break, w') \<Rightarrow> (Broke, w')
      | (Propagate e, w') \<Rightarrow> (Propagated e, w'))"

definition simple_retry ::
  "string \<Rightarrow> int \<Rightarrow> int \<Rightarrow> executor \<Rightarrow> world \<Rightarrow> simple_end \<times> world" where
  "simple_retry url max_retries delay ex w =
     simple_for_loop url ex max_retries delay [1..max_retries] w"

subsection \<open>Reading a run\<close>

text \<open>
  How the \<open>except\<close> clause of \<open>get_with_backoff\<close> sorts an attempt: only an \<open>HTTPError\<close> is
  caught; its status below 500 ends the call, any other status leads to a wait.
\<close>

fun retryable :: "outcome \<Rightarrow> bool" where
  "retryable (Raised_HTTPError res) = (\<not> status_code res < 500)"
| "retryable (Returned res) = False"
| "retryable (Raised e) = False"

fun fatal :: "outcome \<Rightarrow> bool" where
  "fatal (Raised_HTTPError res) = (status_code res < 500)"
| "fatal (Returned res) = False"
| "fatal (Raised e) = False"

fun is_Sleep :: "event \<Rightarrow> bool" where
  "is_Sleep (Sleep a d t) = True"
| "is_Sleep (Get a d u t) = False"

fun is_Get :: "event \<Rightarrow> bool" where
  "is_Get (Get a d u t) = True"
| "is_Get (Sleep a d t) = False"

definition attempts_made :: "world \<Rightarrow> nat" where
  "attempts_made w = length (filter is_Get (log w))"

definition waits :: "world \<Rightarrow> event list" where
  "waits w = filter is_Sleep (log w)"

text \<open>The value \<open>delay * 2\<close>, before the cap of 30 and before the jitter.\<close>

definition pre_cap :: "event \<Rightarrow> int" where
  "pre_cap e = at_delay e * 2"

text \<open>The value \<open>min(delay * 2, 30)\<close> to which the jitter is added.\<close>

definition pre_jitter :: "event \<Rightarrow> int" where
  "pre_jitter e = min (at_delay e * 2) 30"

text \<open>The values \<open>random.random()\<close> can take.\<close>

definition unit_interval :: "random_source \<Rightarrow> bool" where
  "unit_interval rng \<longleftrightarrow> (\<forall>k. 0 \<le> rng k \<and> rng k \<le> 1)"

text \<open>The world after a request, and after a request that was answered by a wait.\<close>

definition jitter_at :: "random_source \<Rightarrow> int \<Rightarrow> world \<Rightarrow> real" where
  "jitter_at rng d w =
     - 0.1 * of_int d + (0.1 * of_int d - (- 0.1 * of_int d)) * rng (draws w)"

definition requested :: "string \<Rightarrow> int \<Rightarrow> int \<Rightarrow> world \<Rightarrow> world" where
  "requested url a d w = w\<lparr>calls := Suc (calls w), log := log w @ [Get a d url 10]\<rparr>"

definition backed_off :: "string \<Rightarrow> random_source \<Rightarrow> int \<Rightarrow> int \<Rightarrow> world \<Rightarrow> world" where
  "backed_off url rng a d w =
     w\<lparr>calls := Suc (calls w), draws := Suc (draws w),
       log := log w @ [Get a d url 10,
                       Sleep a d (of_int (min (d * 2) 30) + jitter_at rng d w)]\<rparr>"

fun sound_wait :: "event \<Rightarrow> bool" where
  "sound_wait (Sleep a d t) = (\<bar>t - of_int (min (d * 2) 30)\<bar> \<le> 0.1 * of_int d)"
| "sound_wait (Get a d u t) = True"

subsection \<open>Some networks and random sources\<close>
definition always_status :: "int \<Rightarrow> executor" where
  "always_status c k = Raised_HTTPError \<lparr>status_code = c, content = []\<rparr>"

definition always_503 :: executor where
  "always_503 = always_status 503"

definition always_500 :: executor where
  "always_500 = always_status 500"

definition always_404 :: executor where
  "always_404 = always_status 404"

definition times_out :: executor where
  "times_out k = Raised ReadTimeout"

definition ok_200 :: response where
  "ok_200 = \<lparr>status_code = 200, content = ''ok''\<rparr>"

definition flaky :: "nat \<Rightarrow> executor" where
  "flaky n k = (if k < n then Raised_HTTPError \<lparr>status_code = 503, content = []\<rparr>
                else Returned ok_200)"

definition timeout_then_ok :: executor where
  "timeout_then_ok k = (if k < 1 then Raised ReadTimeout else Returned ok_200)"

definition mid :: random_source where
  "mid k = 1 / 2"

definition low :: random_source where
  "low k = 0"

subsection \<open>The delay as the specification words it\<close>

text \<open>
  The specification gives the delay before the jitter as \<open>min(base * 2^(attempt-1), cap)\<close>.
  This definition follows those words; it is compared with what the code computes below.
\<close>

definition spec_backoff :: "int \<Rightarrow> int \<Rightarrow> nat \<Rightarrow> int" where
  "spec_backoff base cap n = min (base * 2 ^ (n - 1)) cap"

section \<open>One pass through the loop body\<close>

lemma body_Returned:
  "ex (calls w) = Returned res \<Longrightarrow> body url ex rng a d w = (Return res, requested url a d w)"
  by (simp add: body_def try_get_def requested_def)

lemma body_Raised:
  "ex (calls w) = Raised e \<Longrightarrow>
   body url ex rng a d w = (Raise (Uncaught e), requested url a d w)"
  by (simp add: body_def try_get_def requested_def)

lemma body_fatal:
  "fatal (ex (calls w)) \<Longrightarrow>
   body url ex rng a d w =
     (Raise (RuntimeError ''Client error! Please review request.''), requested url a d w)"
  by (cases "ex (calls w)") (simp_all add: body_def try_get_def requested_def)

lemma body_retryable:
  "retryable (ex (calls w)) \<Longrightarrow>
   body url ex rng a d w = (Next_iteration (min (d * 2) 30), backed_off url rng a d w)"
  by (cases "ex (calls w)")
     (simp_all add: body_def try_get_def uniform_def sleep_def backed_off_def jitter_at_def
        Let_def)

lemma outcome_kinds:
  "(\<exists>res. x = Returned res) \<or> (\<exists>e. x = Raised e) \<or> fatal x \<or> retryable x"
  by (cases x) auto

lemma calls_backed_off: "calls (backed_off url rng a d w) = Suc (calls w)"
  by (simp add: backed_off_def)

lemma start_empty: "attempts_made start = 0" "waits start = []" "calls start = 0"
  by (simp_all add: start_def attempts_made_def waits_def)

lemmas run_defs =
  get_with_backoff_def body_def try_get_def uniform_def sleep_def start_def upto_rec1
  always_status_def always_503_def always_500_def always_404_def times_out_def ok_200_def
  flaky_def timeout_then_ok_def mid_def low_def

section \<open>The loop on a network that keeps failing, and on one that recovers\<close>

lemma for_loop_all_retryable:
  "\<forall>i < length as. retryable (ex (calls w + i)) \<Longrightarrow>
   fst (for_loop url ex rng as d w) = None \<and>
   attempts_made (snd (for_loop url ex rng as d w)) = attempts_made w + length as \<and>
   length (waits (snd (for_loop url ex rng as d w))) = length (waits w) + length as"
proof (induction as arbitrary: d w)
  case Nil
  then show ?case by simp
next
  case (Cons a as)
  let ?w = "backed_off url rng a d w"
  from Cons.prems have r: "retryable (ex (calls w))" by auto
  from Cons.prems have "\<forall>i < length as. retryable (ex (calls ?w + i))"
    by (auto simp: calls_backed_off)
  from Cons.IH [OF this, of "min (d * 2) 30"] show ?case
    by (simp add: body_retryable [of ex w, OF r])
       (simp add: backed_off_def attempts_made_def waits_def)
qed

lemma for_loop_retry_then_return:
  "k < length as \<Longrightarrow> \<forall>i < k. retryable (ex (calls w + i)) \<Longrightarrow>
   ex (calls w + k) = Returned res \<Longrightarrow>
   fst (for_loop url ex rng as d w) = Some (Inr res) \<and>
   attempts_made (snd (for_loop url ex rng as d w)) = attempts_made w + k + 1 \<and>
   length (waits (snd (for_loop url ex rng as d w))) = length (waits w) + k"
proof (induction as arbitrary: k d w)
  case Nil
  then show ?case by simp
next
  case (Cons a as)
  show ?case
  proof (cases k)
    case 0
    with Cons.prems have "ex (calls w) = Returned res" by simp
    then show ?thesis using 0
      by (simp add: body_Returned requested_def attempts_made_def waits_def)
  next
    case (Suc j)
    let ?w = "backed_off url rng a d w"
    from Cons.prems Suc have r: "retryable (ex (calls w))" by auto
    from Cons.prems Suc have 1: "j < length as" by simp
    from Cons.prems Suc have 2: "\<forall>i < j. retryable (ex (calls ?w + i))"
      by (auto simp: calls_backed_off)
    from Cons.prems Suc have 3: "ex (calls ?w + j) = Returned res"
      by (simp add: calls_backed_off)
    from Cons.IH [OF 1 2 3, of "min (d * 2) 30"] show ?thesis using Suc
      by (simp add: body_retryable [of ex w, OF r])
         (simp add: backed_off_def attempts_made_def waits_def)
  qed
qed

text \<open>
  The failures the code retries are those of its \<open>else\<close> branch: an \<open>HTTPError\<close> whose status
  is not below 500. On a network that answers every request with one of these,
  \<open>get_with_backoff\<close> with \<open>max_retries \<ge> 1\<close> makes exactly \<open>max_retries\<close> requests and then
  raises the \<open>RuntimeError\<close> "All retries to query ... failed!". Timeouts are not among
  these failures; what the code does on them is shown in the section on exceptions that are
  not \<open>HTTPError\<close>.
\<close>

lemma caught_failures_exhaust:
  assumes "1 \<le> max_retries" and "\<forall>k. retryable (ex k)"
  shows "fst (get_with_backoff url max_retries ex rng start) =
           Inl (RuntimeError (''All retries to query '' @ url @ '' failed!'')) \<and>
         attempts_made (snd (get_with_backoff url max_retries ex rng start)) = nat max_retries"
proof -
  have "\<forall>i < length [1..max_retries]. retryable (ex (calls start + i))"
    using assms(2) by simp
  from for_loop_all_retryable [OF this, of url rng 1] show ?thesis
    by (simp add: get_with_backoff_def split_beta start_empty)
qed

lemma caught_failures_exhaust_example:
  "(1::int) \<le> 4 \<and> (\<forall>k. retryable (always_503 k)) \<and>
   fst (get_with_backoff ''u'' 4 always_503 mid start) =
     Inl (RuntimeError ''All retries to query u failed!'') \<and>
   attempts_made (snd (get_with_backoff ''u'' 4 always_503 mid start)) = 4"
proof -
  have h1: "(1::int) \<le> 4" by simp
  have h2: "\<forall>k. retryable (always_503 k)" by (simp add: always_503_def always_status_def)
  from caught_failures_exhaust [OF h1 h2, of "''u''" mid] h2 show ?thesis by simp
qed

text \<open>
  When the first \<open>k\<close> requests fail with an \<open>HTTPError\<close> whose status is not below 500 and
  request \<open>k + 1\<close> succeeds, with \<open>0 \<le> k < max_retries\<close>, \<open>get_with_backoff\<close> makes exactly
  \<open>k + 1\<close> requests and returns the response of request \<open>k + 1\<close> (having waited \<open>k\<close> times).
  Again this does not cover a timeout among the first \<open>k\<close> requests.
\<close>

lemma caught_failures_then_success:
  assumes "int k < max_retries"
    and "\<forall>i < k. retryable (ex i)"
    and "ex k = Returned res"
  shows "fst (get_with_backoff url max_retries ex rng start) = Inr res \<and>
         attempts_made (snd (get_with_backoff url max_retries ex rng start)) = k + 1 \<and>
         length (waits (snd (get_with_backoff url max_retries ex rng start))) = k"
proof -
  have 1: "k < length [1..max_retries]" using assms(1) by simp
  have 2: "\<forall>i < k. retryable (ex (calls start + i))" using assms(2) by (simp add: start_empty)
  have 3: "ex (calls start + k) = Returned res" using assms(3) by (simp add: start_empty)
  from for_loop_retry_then_return [OF 1 2 3, of url rng 1] show ?thesis
    by (simp add: get_with_backoff_def split_beta start_empty)
qed

lemma caught_failures_then_success_example:
  "int 2 < 3 \<and> retryable (flaky 2 0) \<and> retryable (flaky 2 1) \<and>
   flaky 2 2 = Returned ok_200 \<and>
   fst (get_with_backoff ''u'' 3 (flaky 2) mid start) = Inr ok_200 \<and>
   attempts_made (snd (get_with_backoff ''u'' 3 (flaky 2) mid start)) = 3 \<and>
   length (waits (snd (get_with_backoff ''u'' 3 (flaky 2) mid start))) = 2"
proof -
  have h1: "int 2 < 3" by simp
  have r: "retryable (flaky 2 0)" "retryable (flaky 2 1)" by (simp_all add: flaky_def)
  have h2: "\<forall>i < 2. retryable (flaky 2 i)" by (simp add: flaky_def)
  have h3: "flaky 2 2 = Returned ok_200" by (simp add: flaky_def)
  from caught_failures_then_success [OF h1 h2 h3, of "''u''" mid] r h3 show ?thesis by simp
qed

text \<open>
  C6. On a network that answers every request with a fatal failure (an \<open>HTTPError\<close> whose
  status is below 500), \<open>get_with_backoff\<close> with \<open>max_retries \<ge> 1\<close> makes exactly one request
  and raises at once: the only effect is that request, there is no wait, no random draw and
  no second request. What the caller gets is the \<open>RuntimeError\<close> "Client error! Please review
  request.".
\<close>

theorem fatal_fails_at_once:
  assumes "1 \<le> max_retries" and "\<forall>k. fatal (ex k)"
  shows "get_with_backoff url max_retries ex rng start =
           (Inl (RuntimeError ''Client error! Please review request.''),
            \<lparr>calls = 1, draws = 0, log = [Get 1 1 url 10]\<rparr>)"
proof -
  from assms(1) have "[1..max_retries] = 1 # [2..max_retries]"
    by (simp add: upto_rec1)
  moreover from assms(2) have "fatal (ex (calls start))" by simp
  ultimately show ?thesis
    by (simp add: get_with_backoff_def body_fatal requested_def start_def)
qed

theorem fatal_fails_at_once_witness:
  "(1::int) \<le> 3 \<and> (\<forall>k. fatal (always_404 k)) \<and>
   get_with_backoff ''u'' 3 always_404 mid start =
     (Inl (RuntimeError ''Client error! Please review request.''),
      \<lparr>calls = 1, draws = 0, log = [Get 1 1 ''u'' 10]\<rparr>)"
proof -
  have h1: "(1::int) \<le> 3" by simp
  have h2: "\<forall>k. fatal (always_404 k)" by (simp add: always_404_def always_status_def)
  from fatal_fails_at_once [OF h1 h2, of "''u''" mid] h2 show ?thesis by simp
qed

text \<open>
  C10. With \<open>max_retries \<le> 0\<close> the range of the loop is empty: \<open>get_with_backoff\<close> makes no
  request, draws no random number and does not wait (the world is unchanged), and it raises
  the \<open>RuntimeError\<close> "All retries to query ... failed!".
\<close>

theorem no_budget_no_attempt:
  assumes "max_retries \<le> 0"
  shows "get_with_backoff url max_retries ex rng w =
           (Inl (RuntimeError (''All retries to query '' @ url @ '' failed!'')), w)"
  using assms by (simp add: get_with_backoff_def)

theorem no_budget_no_attempt_witness:
  "(0::int) \<le> 0 \<and>
   get_with_backoff ''u'' 0 always_503 mid start =
     (Inl (RuntimeError ''All retries to query u failed!''), start)"
proof -
  have h: "(0::int) \<le> 0" by simp
  from no_budget_no_attempt [OF h, of "''u''" always_503 mid start] show ?thesis by simp
qed

section \<open>What a run records\<close>

text \<open>
  With \<open>random()\<close> in the unit interval, the jitter \<open>uniform(-0.1 * delay, 0.1 * delay)\<close> is
  at most a tenth of \<open>delay\<close> in size.
\<close>

lemma jitter_bound:
  fixes D u :: real
  assumes "0 \<le> u" "u \<le> 1" "0 \<le> D"
  shows "\<bar>- 0.1 * D + (0.1 * D - (- 0.1 * D)) * u\<bar> \<le> 0.1 * D"
proof -
  have 1: "0 \<le> D * u" using assms by simp
  have 2: "D * u \<le> D" using assms by (simp add: mult_left_le)
  have eq: "- 0.1 * D + (0.1 * D - (- 0.1 * D)) * u = - 0.1 * D + 0.2 * (D * u)"
    by (simp add: algebra_simps)
  show ?thesis unfolding eq using 1 2 by linarith
qed

text \<open>
  The invariant of the loop: \<open>delay\<close> stays between 1 and 30 and never shrinks, \<open>attempt\<close>
  is taken from the range, and every wait is the capped double of \<open>delay\<close> plus a jitter
  within a tenth of \<open>delay\<close>.
\<close>

lemma for_loop_events:
  assumes "1 \<le> d" "d \<le> 30"
  shows "\<exists>new. log (snd (for_loop url ex rng as d w)) = log w @ new \<and>
           (\<forall>e \<in> set new. at_attempt e \<in> set as \<and> d \<le> at_delay e \<and> at_delay e \<le> 30) \<and>
           sorted (map at_delay new) \<and>
           (unit_interval rng \<longrightarrow> (\<forall>e \<in> set new. sound_wait e))"
  using assms
proof (induction as arbitrary: d w)
  case Nil
  then show ?case by simp
next
  case (Cons a as)
  consider (ret) res where "ex (calls w) = Returned res"
    | (exc) e where "ex (calls w) = Raised e"
    | (fat) "fatal (ex (calls w))"
    | (again) "retryable (ex (calls w))"
    using outcome_kinds [of "ex (calls w)"] by blast
  then show ?case
  proof cases
    case ret
    then show ?thesis using Cons.prems
      by (simp add: body_Returned requested_def)
  next
    case exc
    then show ?thesis using Cons.prems
      by (simp add: body_Raised requested_def)
  next
    case fat
    then show ?thesis using Cons.prems
      by (simp add: body_fatal requested_def)
  next
    case again
    let ?d = "min (d * 2) 30"
    let ?w = "backed_off url rng a d w"
    let ?g = "Get a d url 10"
    let ?s = "Sleep a d (of_int ?d + jitter_at rng d w)"
    have d': "1 \<le> ?d" "?d \<le> 30" "d \<le> ?d" using Cons.prems by simp_all
    from Cons.IH [OF d'(1) d'(2), of ?w] obtain new where
      new: "log (snd (for_loop url ex rng as ?d ?w)) = log ?w @ new"
        "\<forall>e \<in> set new. at_attempt e \<in> set as \<and> ?d \<le> at_delay e \<and> at_delay e \<le> 30"
        "sorted (map at_delay new)"
        "unit_interval rng \<longrightarrow> (\<forall>e \<in> set new. sound_wait e)"
      by blast
    have s: "unit_interval rng \<longrightarrow> sound_wait ?s"
      using Cons.prems jitter_bound [of "rng (draws w)" "of_int d"]
      by (simp add: unit_interval_def jitter_at_def)
    have l: "log (snd (for_loop url ex rng (a # as) d w)) = log w @ (?g # ?s # new)"
      using new(1) by (simp add: body_retryable [of ex w, OF again]) (simp add: backed_off_def)
    have b: "\<forall>e \<in> set (?g # ?s # new).
               at_attempt e \<in> set (a # as) \<and> d \<le> at_delay e \<and> at_delay e \<le> 30"
      using new(2) d' Cons.prems by auto
    have o: "sorted (map at_delay (?g # ?s # new))"
      using new(2,3) d' by auto
    have j: "unit_interval rng \<longrightarrow> (\<forall>e \<in> set (?g # ?s # new). sound_wait e)"
      using new(4) s by simp
    from l b o j show ?thesis by blast
  qed
qed

lemma snd_get_with_backoff:
  "snd (get_with_backoff url m ex rng w) = snd (for_loop url ex rng [1..m] 1 w)"
  by (simp add: get_with_backoff_def split: prod.splits option.splits)

lemma run_events:
  "(\<forall>e \<in> set (log (snd (get_with_backoff url m ex rng start))).
      1 \<le> at_attempt e \<and> at_attempt e \<le> m \<and> 1 \<le> at_delay e \<and> at_delay e \<le> 30) \<and>
   sorted (map at_delay (log (snd (get_with_backoff url m ex rng start)))) \<and>
   (unit_interval rng \<longrightarrow>
      (\<forall>e \<in> set (log (snd (get_with_backoff url m ex rng start))). sound_wait e))"
proof -
  have "(1::int) \<le> 1" "(1::int) \<le> 30" by simp_all
  from for_loop_events [OF this, of url ex rng "[1..m]" start]
  show ?thesis
    unfolding snd_get_with_backoff by (auto simp: start_def)
qed

text \<open>
  C9. In every run of \<open>get_with_backoff\<close>, over the requests and waits in the order they
  happen: the value \<open>delay * 2\<close> (before the cap and before the jitter) never decreases, and
  neither does \<open>delay\<close>; \<open>delay\<close>, \<open>delay * 2\<close> and \<open>min(delay * 2, 30)\<close> are never negative; and
  \<open>attempt\<close> lies between 1 and \<open>max_retries\<close>.
\<close>

theorem delays_never_shrink:
  "sorted (map pre_cap (log (snd (get_with_backoff url max_retries ex rng start)))) \<and>
   sorted (map at_delay (log (snd (get_with_backoff url max_retries ex rng start)))) \<and>
   (\<forall>e \<in> set (log (snd (get_with_backoff url max_retries ex rng start))).
      0 \<le> at_delay e \<and> 0 \<le> pre_cap e \<and> 0 \<le> pre_jitter e \<and>
      1 \<le> at_attempt e \<and> at_attempt e \<le> max_retries)"
proof -
  let ?l = "log (snd (get_with_backoff url max_retries ex rng start))"
  note r = run_events [of url max_retries ex rng]
  from r have "sorted_wrt (\<lambda>x y. at_delay x \<le> at_delay y) ?l"
    by (simp add: sorted_map)
  then have "sorted_wrt (\<lambda>x y. pre_cap x \<le> pre_cap y) ?l"
    by (rule sorted_wrt_mono_rel [rotated]) (simp add: pre_cap_def)
  then have "sorted (map pre_cap ?l)"
    by (simp add: sorted_map)
  moreover have "\<forall>e \<in> set ?l. 0 \<le> at_delay e \<and> 0 \<le> pre_cap e \<and> 0 \<le> pre_jitter e \<and>
      1 \<le> at_attempt e \<and> at_attempt e \<le> max_retries"
    using r by (auto simp: pre_cap_def pre_jitter_def)
  ultimately show ?thesis using r by blast
qed

theorem delays_never_shrink_witness:
  "Sleep 4 8 16 \<in> set (log (snd (get_with_backoff ''u'' 4 always_503 mid start))) \<and>
   sorted (map pre_cap (log (snd (get_with_backoff ''u'' 4 always_503 mid start)))) \<and>
   sorted (map at_delay (log (snd (get_with_backoff ''u'' 4 always_503 mid start)))) \<and>
   0 \<le> at_delay (Sleep 4 8 16) \<and> 0 \<le> pre_cap (Sleep 4 8 16) \<and>
   0 \<le> pre_jitter (Sleep 4 8 16) \<and>
   1 \<le> at_attempt (Sleep 4 8 16) \<and> at_attempt (Sleep 4 8 16) \<le> 4"
proof -
  have m: "Sleep 4 8 16 \<in> set (log (snd (get_with_backoff ''u'' 4 always_503 mid start)))"
    by (simp add: run_defs)
  from delays_never_shrink [of "''u''" 4 always_503 mid] m show ?thesis
    by blast
qed

text \<open>
  C8. In every run of \<open>get_with_backoff\<close>, whatever \<open>random()\<close> gives in the unit interval
  (so whatever jitter \<open>uniform(-0.1 * delay, 0.1 * delay)\<close> can give), each duration \<open>t\<close>
  passed to \<open>time.sleep\<close> differs from \<open>min(delay * 2, 30)\<close> by at most a tenth of
  \<open>min(delay * 2, 30)\<close>, and is not negative.
\<close>

theorem wait_within_ten_percent:
  assumes "unit_interval rng"
    and "Sleep a d t \<in> set (log (snd (get_with_backoff url max_retries ex rng start)))"
  shows "\<bar>t - of_int (min (d * 2) 30)\<bar> \<le> 0.1 * of_int (min (d * 2) 30) \<and> 0 \<le> t"
proof -
  define P :: real where "P = of_int (min (d * 2) 30)"
  define D :: real where "D = of_int d"
  from run_events [of url max_retries ex rng] assms
  have d: "1 \<le> d" "d \<le> 30" and s: "sound_wait (Sleep a d t)"
    by force+
  from d have 1: "D \<le> P" by (simp add: P_def D_def)
  from d have 2: "0 \<le> D" by (simp add: D_def)
  from s have 3: "\<bar>t - P\<bar> \<le> 0.1 * D" by (simp add: P_def D_def)
  from 1 2 3 have "\<bar>t - P\<bar> \<le> 0.1 * P \<and> 0 \<le> t" by linarith
  then show ?thesis by (simp only: P_def)
qed

theorem wait_within_ten_percent_witness:
  "unit_interval low \<and>
   Sleep 2 2 3.8 \<in> set (log (snd (get_with_backoff ''u'' 2 always_503 low start))) \<and>
   \<bar>3.8 - of_int (min (2 * 2) 30)\<bar> \<le> 0.1 * real_of_int (min (2 * 2) 30) \<and> (0::real) \<le> 3.8"
proof -
  have h1: "unit_interval low" by (simp add: unit_interval_def low_def)
  have h2: "Sleep 2 2 3.8 \<in> set (log (snd (get_with_backoff ''u'' 2 always_503 low start)))"
    by (simp add: run_defs low_def)
  from wait_within_ten_percent [OF h1 h2] h1 h2 show ?thesis by blast
qed

section \<open>The waits the code computes, against the specification's formula\<close>

lemma double_capped: "min (min (2 ^ k) 30 * 2) (30::int) = min (2 ^ Suc k) 30"
  by (simp add: min_def)

lemma for_loop_closed_form:
  "1 \<le> a \<Longrightarrow> d = min (2 ^ nat (a - 1)) 30 \<Longrightarrow>
   \<exists>new. log (snd (for_loop url ex rng [a..m] d w)) = log w @ new \<and>
     (\<forall>e \<in> set new. at_delay e = min (2 ^ nat (at_attempt e - 1)) 30)"
proof (induction a m arbitrary: d w rule: upto.induct)
  case (1 a m)
  show ?case
  proof (cases "a \<le> m")
    case False
    then show ?thesis by simp
  next
    case True
    then have u: "[a..m] = a # [a + 1..m]" by (simp add: upto_rec1)
    consider (ret) res where "ex (calls w) = Returned res"
      | (exc) e where "ex (calls w) = Raised e"
      | (fat) "fatal (ex (calls w))"
      | (again) "retryable (ex (calls w))"
      using outcome_kinds [of "ex (calls w)"] by blast
    then show ?thesis
    proof cases
      case ret
      then show ?thesis using "1.prems" by (simp add: u body_Returned requested_def)
    next
      case exc
      then show ?thesis using "1.prems" by (simp add: u body_Raised requested_def)
    next
      case fat
      then show ?thesis using "1.prems" by (simp add: u body_fatal requested_def)
    next
      case again
      let ?d = "min (d * 2) 30"
      let ?w = "backed_off url rng a d w"
      from "1.prems" have "nat (a + 1 - 1) = Suc (nat (a - 1))" by simp
      with "1.prems" have d': "?d = min (2 ^ nat (a + 1 - 1)) 30"
        by (simp only: double_capped)
      from "1.prems" have "1 \<le> a + 1" by simp
      from "1.IH" [OF True this d', of ?w] obtain new where
        new: "log (snd (for_loop url ex rng [a + 1..m] ?d ?w)) = log ?w @ new"
          "\<forall>e \<in> set new. at_delay e = min (2 ^ nat (at_attempt e - 1)) 30"
        by blast
      let ?new = "Get a d url 10 # Sleep a d (of_int ?d + jitter_at rng d w) # new"
      have "log (snd (for_loop url ex rng [a..m] d w)) = log w @ ?new"
        using new(1) by (simp add: u body_retryable [of ex w, OF again]) (simp add: backed_off_def)
      moreover have "\<forall>e \<in> set ?new. at_delay e = min (2 ^ nat (at_attempt e - 1)) 30"
        using new(2) "1.prems" by simp
      ultimately show ?thesis by blast
    qed
  qed
qed

text \<open>
  At attempt \<open>a\<close> the variable \<open>delay\<close> holds the specification's value for \<open>a\<close>, but the
  duration slept is built from \<open>min(delay * 2, 30)\<close>, the specification's value for \<open>a + 1\<close>.
\<close>

lemma wait_closed_form:
  assumes "Sleep a d t \<in> set (log (snd (get_with_backoff url m ex rng start)))"
  shows "d = spec_backoff 1 30 (nat a) \<and> min (d * 2) 30 = spec_backoff 1 30 (nat a + 1)"
proof -
  have "(1::int) \<le> 1" "(1::int) = min (2 ^ nat (1 - 1)) 30" by simp_all
  from for_loop_closed_form [OF this, of url ex rng m start] assms
  have "d = min (2 ^ nat (a - 1)) 30"
    unfolding snd_get_with_backoff by (force simp: start_def)
  moreover from run_events [of url m ex rng] assms have "1 \<le> a" by force
  then have "nat a - 1 = nat (a - 1)" "nat a = Suc (nat (a - 1))" by simp_all
  ultimately show ?thesis
    by (simp only: spec_backoff_def double_capped mult_1 diff_Suc_1 add_diff_cancel_right')
qed

text \<open>
  C1. The claim is that the delay before the jitter at attempt \<open>n\<close> is
  \<open>min(base * 2^(n-1), cap)\<close> with base 1 and cap 30, so 1, 2, 4, 8 for the first four
  attempts, and that the first one equals the base delay. On a network that always answers
  503, with a random source that makes every jitter 0, the code sleeps 2, 4, 8, 16: at
  attempt 1 the delay before the jitter is 2, not 1. The comments of the code
  ("delay = 1 -> jitter [-0.1, 0.1] -> 0.9 and 1.1s") describe the claimed values.
\<close>

theorem first_wait_is_doubled:
  "waits (snd (get_with_backoff ''u'' 4 always_503 mid start)) =
     [Sleep 1 1 2, Sleep 2 2 4, Sleep 3 4 8, Sleep 4 8 16] \<and>
   map pre_jitter (waits (snd (get_with_backoff ''u'' 4 always_503 mid start))) = [2, 4, 8, 16] \<and>
   map (spec_backoff 1 30) [1, 2, 3, 4] = [1, 2, 4, 8]"
  by (simp add: run_defs waits_def pre_jitter_def spec_backoff_def)

text \<open>On a network that keeps failing there are as many waits as requests.\<close>

lemma always_retryable_waits:
  assumes "\<forall>k. retryable (ex k)"
  shows "length (waits (snd (get_with_backoff url max_retries ex rng start))) = nat max_retries"
proof -
  have "\<forall>i < length [1..max_retries]. retryable (ex (calls start + i))"
    using assms by simp
  from for_loop_all_retryable [OF this, of url rng 1] show ?thesis
    by (simp add: snd_get_with_backoff start_empty)
qed

text \<open>
  C2. The claim is that no wait happens after the last attempt, so that four attempts that
  all fail with a retryable failure give three waits. In \<open>get_with_backoff\<close> with
  \<open>max_retries = 4\<close> on a network that always answers 503 there are four waits, and the last
  effect before the \<open>RuntimeError\<close> is the wait of 16 seconds after the fourth request.
\<close>

theorem waits_after_last_attempt:
  "log (snd (get_with_backoff ''u'' 4 always_503 mid start)) =
     [Get 1 1 ''u'' 10, Sleep 1 1 2, Get 2 2 ''u'' 10, Sleep 2 2 4,
      Get 3 4 ''u'' 10, Sleep 3 4 8, Get 4 8 ''u'' 10, Sleep 4 8 16] \<and>
   length (waits (snd (get_with_backoff ''u'' 4 always_503 mid start))) = 4 \<and>
   fst (get_with_backoff ''u'' 4 always_503 mid start) =
     Inl (RuntimeError ''All retries to query u failed!'')"
  by (simp add: run_defs waits_def)

text \<open>
  The plain retry loop of the same notebook guards its wait with \<open>attempt < max_retries\<close>:
  on a network that keeps failing it waits one time less than it requests, and on the
  network above it waits three times and ends with the fourth request.
\<close>

lemma simple_body_retryable:
  "retryable (ex (calls w)) \<Longrightarrow>
   simple_body url ex m delay a w =
     (Carry_on,
      if a < m then sleep a delay (of_int delay) (requested url a delay w)
      else requested url a delay w)"
  by (cases "ex (calls w)") (simp_all add: simple_body_def try_get_def requested_def)

lemma simple_for_loop_all_retryable:
  "\<forall>k. retryable (ex k) \<Longrightarrow>
   fst (simple_for_loop url ex m delay [a..m] w) = All_failed \<and>
   attempts_made (snd (simple_for_loop url ex m delay [a..m] w)) =
     attempts_made w + nat (m + 1 - a) \<and>
   length (waits (snd (simple_for_loop url ex m delay [a..m] w))) =
     length (waits w) + nat (m - a)"
proof (induction a m arbitrary: w rule: upto.induct)
  case (1 a m)
  show ?case
  proof (cases "a \<le> m")
    case False
    then show ?thesis by simp
  next
    case True
    then have u: "[a..m] = a # [a + 1..m]" by (simp add: upto_rec1)
    let ?w = "if a < m then sleep a delay (of_int delay) (requested url a delay w)
              else requested url a delay w"
    from "1.prems" have r: "retryable (ex (calls w))" by simp
    have a: "attempts_made ?w = attempts_made w + 1"
      by (simp add: attempts_made_def sleep_def requested_def)
    have s: "length (waits ?w) = length (waits w) + (if a < m then 1 else 0)"
      by (simp add: waits_def sleep_def requested_def)
    from "1.IH" [OF True "1.prems", of ?w] True show ?thesis
      unfolding u by (simp only: simple_for_loop.simps simple_body_retryable [of ex w, OF r]
          prod.case simple_flow.case a s) (auto simp: nat_add_distrib)
  qed
qed

lemma simple_retry_waits:
  assumes "1 \<le> max_retries" and "\<forall>k. retryable (ex k)"
  shows "attempts_made (snd (simple_retry url max_retries delay ex start)) = nat max_retries \<and>
         length (waits (snd (simple_retry url max_retries delay ex start))) = nat max_retries - 1"
  using simple_for_loop_all_retryable [OF assms(2), of url max_retries delay 1 start] assms(1)
  by (simp add: simple_retry_def start_empty nat_diff_distrib)

lemma simple_retry_no_wait_after_last:
  "simple_retry ''u'' 4 2 always_503 start =
     (All_failed,
      \<lparr>calls = 4, draws = 0,
       log = [Get 1 2 ''u'' 10, Sleep 1 2 2, Get 2 2 ''u'' 10, Sleep 2 2 2,
              Get 3 2 ''u'' 10, Sleep 3 2 2, Get 4 2 ''u'' 10]\<rparr>)"
  by (simp add: simple_retry_def simple_body_def run_defs)

section \<open>Exceptions that are not HTTPError\<close>

text \<open>An exception of the first request that is not an \<open>HTTPError\<close> ends the call.\<close>

lemma uncaught_propagates:
  assumes "1 \<le> max_retries" and "ex 0 = Raised e"
  shows "get_with_backoff url max_retries ex rng start =
           (Inl (Uncaught e), \<lparr>calls = 1, draws = 0, log = [Get 1 1 url 10]\<rparr>)"
proof -
  from assms(1) have "[1..max_retries] = 1 # [2..max_retries]"
    by (simp add: upto_rec1)
  moreover from assms(2) have "ex (calls start) = Raised e" by (simp add: start_def)
  ultimately show ?thesis
    by (simp add: get_with_backoff_def body_Raised requested_def start_def)
qed

text \<open>
  C3. The claim is that a timeout is retried like a 5xx answer. The \<open>except\<close> clause of
  \<open>get_with_backoff\<close> names \<open>HTTPError\<close> only: with \<open>max_retries = 3\<close> on a network where
  every request times out, the \<open>ReadTimeout\<close> of the first request reaches the caller after
  one request and no wait.
\<close>

theorem timeout_is_not_retried:
  "get_with_backoff ''u'' 3 times_out mid start =
     (Inl (Uncaught ReadTimeout), \<lparr>calls = 1, draws = 0, log = [Get 1 1 ''u'' 10]\<rparr>)"
  by (simp add: run_defs)

text \<open>
  C4. The claim is that on a network where every request ends in a retryable failure,
  \<open>get_with_backoff\<close> with \<open>max_retries \<ge> 1\<close> makes exactly \<open>max_retries\<close> requests and then
  raises the \<open>RuntimeError\<close> "All retries to query ... failed!". Retryable failures are 5xx
  answers and timeouts. On a network where every request times out, with
  \<open>max_retries = 3\<close>, the code makes one request, not three, does not wait, and what it
  raises is the \<open>ReadTimeout\<close> of that request, not the \<open>RuntimeError\<close>.
\<close>

theorem timeouts_leave_budget_unused:
  "fst (get_with_backoff ''u'' 3 times_out mid start) = Inl (Uncaught ReadTimeout) \<and>
   attempts_made (snd (get_with_backoff ''u'' 3 times_out mid start)) = 1 \<and>
   waits (snd (get_with_backoff ''u'' 3 times_out mid start)) = []"
  by (simp add: run_defs attempts_made_def waits_def)

text \<open>
  C7. The claim is that when the first \<open>k\<close> requests end in a retryable failure and request
  \<open>k + 1\<close> succeeds, with \<open>0 \<le> k < max_retries\<close>, \<open>get_with_backoff\<close> makes exactly \<open>k + 1\<close>
  requests and returns the response of request \<open>k + 1\<close>. With \<open>k = 1\<close> and \<open>max_retries = 3\<close>,
  on a network whose first request times out and whose second request would succeed, the
  code makes one request, not two, and raises the \<open>ReadTimeout\<close> instead of returning the
  response.
\<close>

theorem timeout_then_success_is_lost:
  "timeout_then_ok 0 = Raised ReadTimeout \<and> timeout_then_ok 1 = Returned ok_200 \<and>
   fst (get_with_backoff ''u'' 3 timeout_then_ok mid start) = Inl (Uncaught ReadTimeout) \<and>
   attempts_made (snd (get_with_backoff ''u'' 3 timeout_then_ok mid start)) = 1 \<and>
   waits (snd (get_with_backoff ''u'' 3 timeout_then_ok mid start)) = []"
  by (simp add: run_defs attempts_made_def waits_def)

section \<open>The error after the last attempt\<close>

text \<open>
  C5. The claim is that the caller can recover the last failure from the error raised when
  the attempts are used up. Two runs whose last failures differ (status 503 and status 500)
  raise the same \<open>RuntimeError\<close>, so nothing of the failure is in it.
\<close>

theorem last_cause_not_in_error:
  "fst (get_with_backoff ''u'' 1 always_503 mid start) =
     Inl (RuntimeError ''All retries to query u failed!'') \<and>
   fst (get_with_backoff ''u'' 1 always_500 mid start) =
     Inl (RuntimeError ''All retries to query u failed!'') \<and>
   always_503 0 \<noteq> always_500 0"
  by (simp add: run_defs)

text \<open>
  C5, as the code has it. When every request fails with a retryable failure, the error
  raised is the \<open>RuntimeError\<close> "All retries to query {url} failed!": it names the url only
  and is the same for any two such networks and any two random sources.
\<close>

theorem exhausted_error_names_url_only:
  assumes "\<forall>k. retryable (ex k)" and "\<forall>k. retryable (ex' k)"
  shows "fst (get_with_backoff url max_retries ex rng start) =
           Inl (RuntimeError (''All retries to query '' @ url @ '' failed!'')) \<and>
         fst (get_with_backoff url max_retries ex' rng' start) =
           fst (get_with_backoff url max_retries ex rng start)"
proof -
  have 1: "\<forall>i < length [1..max_retries]. retryable (ex (calls start + i))"
    using assms(1) by simp
  have 2: "\<forall>i < length [1..max_retries]. retryable (ex' (calls start + i))"
    using assms(2) by simp
  from for_loop_all_retryable [OF 1, of url rng 1] for_loop_all_retryable [OF 2, of url rng' 1]
  show ?thesis
    by (simp add: get_with_backoff_def split_beta)
qed

theorem exhausted_error_names_url_only_witness:
  "(\<forall>k. retryable (always_503 k)) \<and> (\<forall>k. retryable (always_500 k)) \<and>
   fst (get_with_backoff ''u'' 2 always_503 mid start) =
     Inl (RuntimeError ''All retries to query u failed!'') \<and>
   fst (get_with_backoff ''u'' 2 always_500 low start) =
     fst (get_with_backoff ''u'' 2 always_503 mid start)"
proof -
  have h1: "\<forall>k. retryable (always_503 k)" by (simp add: always_503_def always_status_def)
  have h2: "\<forall>k. retryable (always_500 k)" by (simp add: always_500_def always_status_def)
  from exhausted_error_names_url_only [OF h1 h2, of "''u''" 2 mid low] h1 h2
  show ?thesis by simp
qed

end
